theory Spec2Isabelle
  imports Main "HOL-Library.Word"
begin

section \<open>Static profile export: data model\<close>

text \<open>
  The embedding follows \<^verbatim>\<open>lib/StaticProfileExporter.cpp\<close>. C++ \<^verbatim>\<open>uint64_t\<close> is
  \<open>64 word\<close> and \<^verbatim>\<open>unsigned\<close> is \<open>32 word\<close>, so that products and increments wrap
  as they do in the program.
\<close>

type_synonym u64 = "64 word"
type_synonym u32 = "32 word"

text \<open>Default entry count for scaling static frequencies to absolute counts.\<close>

definition DefaultEntryCount :: u64 where
  "DefaultEntryCount = 100"

text \<open>
  The part of the IR that the exporter inspects: a constant is an integer constant (read
  through \<^verbatim>\<open>getZExtValue\<close>), a constant struct with its operands, or any other constant.
\<close>

datatype Constant = ConstantInt u64 | ConstantStruct "Constant list" | OtherConstant

record GlobalVariable =
  Initializer :: "Constant option"

type_synonym BasicBlock = nat

text \<open>
  A function carries the two profiling names the exporter asks the host for and its basic
  blocks in declaration order. The entry block is the first block of the list; a
  declaration has no blocks.
\<close>

record Function =
  PGOFuncName :: string
  IRPGOFuncName :: string
  Blocks :: "BasicBlock list"

record Module =
  NamedGlobal :: "string \<rightharpoonup> GlobalVariable"
  Functions :: "Function list"

type_synonym BlockFrequencyInfo = "BasicBlock \<Rightarrow> u64"

definition isDeclaration :: "Function \<Rightarrow> bool" where
  "isDeclaration F = (Blocks F = [])"

section \<open>Metadata lookups\<close>

text \<open>
  \<^verbatim>\<open>format_hex_no_prefix(N, Width, Upper = true)\<close> for a width of at least 16, as the
  exporter calls it: a 64-bit value has at most 16 hexadecimal digits, so the result is
  the upper-case digits of \<open>N\<close> padded on the left with zeros to \<open>Width\<close> characters
  (the formatter caps the width at 128).
\<close>

definition hexDigitUpper :: "nat \<Rightarrow> char" where
  "hexDigitUpper d = (''0123456789ABCDEF'') ! (d mod 16)"

fun hexDigits :: "nat \<Rightarrow> nat \<Rightarrow> string" where
  "hexDigits 0 n = []"
| "hexDigits (Suc k) n = hexDigits k (n div 16) @ [hexDigitUpper n]"

definition format_hex_no_prefix :: "u64 \<Rightarrow> nat \<Rightarrow> string" where
  "format_hex_no_prefix N Width = hexDigits (min 128 Width) (unat N)"

text \<open>
  Extract the structural hash from the coverage record \<^verbatim>\<open>__covrec_<hexhash>u\<close> of the
  function: operand 2 of its constant-struct initializer. The name hash
  \<^verbatim>\<open>IndexedInstrProf::ComputeHash\<close> is a parameter.
\<close>

definition tryExtractCoverageHash :: "(string \<Rightarrow> u64) \<Rightarrow> Module \<Rightarrow> Function \<Rightarrow> u64 option" where
  "tryExtractCoverageHash ComputeHash M F =
     (let FuncName = PGOFuncName F;
          NameHash = ComputeHash FuncName;
          CovRecName = ''__covrec_'' @ format_hex_no_prefix NameHash 16 @ ''u''
      in case NamedGlobal M CovRecName of
           None \<Rightarrow> None
         | Some CovRec \<Rightarrow>
             (case Initializer CovRec of
                Some (ConstantStruct ops) \<Rightarrow>
                  if length ops \<ge> 3
                  then (case ops ! 2 of ConstantInt StructHash \<Rightarrow> Some StructHash | _ \<Rightarrow> None)
                  else None
              | _ \<Rightarrow> None))"

text \<open>
  Compute the function hash for profile compatibility: the structural hash from the
  coverage mapping if present, the hash of the PGO name otherwise.
\<close>

definition computeFunctionHash :: "(string \<Rightarrow> u64) \<Rightarrow> Module \<Rightarrow> Function \<Rightarrow> u64" where
  "computeFunctionHash ComputeHash M F =
     (case tryExtractCoverageHash ComputeHash M F of
        Some CovHash \<Rightarrow> CovHash
      | None \<Rightarrow> (let FuncName = PGOFuncName F in ComputeHash FuncName))"

text \<open>
  Extract the number of counters from the \<^verbatim>\<open>__profd_\<close> global of the function: operand 6
  of its constant-struct initializer, truncated to \<^verbatim>\<open>unsigned\<close>.
\<close>

definition tryExtractCounterCount :: "Module \<Rightarrow> Function \<Rightarrow> u32 option" where
  "tryExtractCounterCount M F =
     (let FuncName = PGOFuncName F;
          ProfdName = ''__profd_'' @ FuncName
      in case NamedGlobal M ProfdName of
           None \<Rightarrow> None
         | Some Profd \<Rightarrow>
             (case Initializer Profd of
                Some (ConstantStruct ops) \<Rightarrow>
                  if length ops > 6
                  then (case ops ! 6 of ConstantInt NumCounters \<Rightarrow> Some (ucast NumCounters) | _ \<Rightarrow> None)
                  else None
              | _ \<Rightarrow> None))"

section \<open>Converting block frequencies to counts\<close>

text \<open>
  The two places where the conversion returns \<^verbatim>\<open>false\<close>, and the violated precondition of
  \<^verbatim>\<open>getEntryBlock\<close> on a function without blocks (the driver never converts a
  declaration).
\<close>

datatype SkipReason = ZeroEntryFrequency | Empty | NoEntryBlock

text \<open>The scaled count of one block: the product wraps at 64 bits before the division.\<close>

definition ScaledCount :: "u64 \<Rightarrow> u64 \<Rightarrow> u64" where
  "ScaledCount EntryFreq BBFreq = (DefaultEntryCount * BBFreq) div EntryFreq"

text \<open>\<^verbatim>\<open>std::sort(BlockFreqs.rbegin(), BlockFreqs.rend())\<close>: descending order.\<close>

definition sortDescending :: "u64 list \<Rightarrow> u64 list" where
  "sortDescending xs = rev (sort xs)"

text \<open>
  The loop \<^verbatim>\<open>for (unsigned i = 1; i < *InstrCounterCount; ++i)\<close>, started at any \<open>i\<close>:
  a counter takes the sorted block count of its own index, or the padding value
  \<^verbatim>\<open>DefaultEntryCount / (i + 1)\<close> beyond the block count.
\<close>

function assignCounters :: "u32 \<Rightarrow> u32 \<Rightarrow> u64 list \<Rightarrow> u64 list \<Rightarrow> u64 list" where
  "assignCounters i InstrCounterCount BlockFreqs Counts =
     (if i < InstrCounterCount
      then assignCounters (i + 1) InstrCounterCount BlockFreqs
             (Counts @ [if unat i < length BlockFreqs
                        then BlockFreqs ! unat i
                        else DefaultEntryCount div ucast (i + 1)])
      else Counts)"
  by pat_completeness auto
termination
proof (relation "measure (\<lambda>(i, N, B, C). unat N - unat i)")
  show "wf (measure (\<lambda>(i :: u32, N :: u32, B :: u64 list, C :: u64 list). unat N - unat i))"
    by simp
next
  fix i InstrCounterCount :: u32 and BlockFreqs Counts :: "u64 list"
  assume lt: "i < InstrCounterCount"
  then have "unat i < unat InstrCounterCount"
    by (simp add: word_less_nat_alt)
  moreover have "unat (i + 1) = unat i + 1"
    using lt by unat_arith
  ultimately show "((i + 1, InstrCounterCount, BlockFreqs,
                     Counts @ [if unat i < length BlockFreqs then BlockFreqs ! unat i
                               else DefaultEntryCount div ucast (i + 1)]),
                    (i, InstrCounterCount, BlockFreqs, Counts))
                   \<in> measure (\<lambda>(i, N, B, C). unat N - unat i)"
    by simp
qed

declare assignCounters.simps [simp del]

definition convertBFIToCounts ::
  "Module \<Rightarrow> Function \<Rightarrow> BlockFrequencyInfo \<Rightarrow> SkipReason + u64 list" where
  "convertBFIToCounts M F BFI =
     (case Blocks F of
        [] \<Rightarrow> Inl NoEntryBlock
      | EntryBB # _ \<Rightarrow>
          (let EntryFreq = BFI EntryBB in
           if EntryFreq = 0 then Inl ZeroEntryFrequency
           else
             let Counts =
               (case tryExtractCounterCount M F of
                  Some InstrCounterCount \<Rightarrow>
                    (let BlockFreqs = sortDescending (map (\<lambda>BB. ScaledCount EntryFreq (BFI BB)) (Blocks F))
                     in assignCounters 1 InstrCounterCount BlockFreqs [DefaultEntryCount])
                | None \<Rightarrow> map (\<lambda>BB. ScaledCount EntryFreq (BFI BB)) (Blocks F))
             in if Counts = [] then Inl Empty else Inr Counts))"

section \<open>The export driver\<close>

record NamedInstrProfRecord =
  Name :: string
  Hash :: u64
  Counts :: "u64 list"

text \<open>
  The state of the loop in \<^verbatim>\<open>StaticProfileExporterPass::run\<close>: the profile writer and the
  two \<^verbatim>\<open>unsigned\<close> tallies.
\<close>

record 'w DriverState =
  Writer :: 'w
  FunctionsProcessed :: u32
  FunctionsSkipped :: u32

text \<open>
  One iteration of the loop over the functions of the module. The writer's
  \<^verbatim>\<open>addRecord\<close> is a parameter: it returns the errors it hands to the warning callback,
  in order, and the new writer. The callback increments \<^verbatim>\<open>FunctionsSkipped\<close> once per
  error; \<^verbatim>\<open>++FunctionsProcessed\<close> follows the call.
\<close>

definition processFunction ::
  "(string \<Rightarrow> u64) \<Rightarrow> ('w \<Rightarrow> NamedInstrProfRecord \<Rightarrow> 'e list \<times> 'w) \<Rightarrow>
   (Function \<Rightarrow> BlockFrequencyInfo) \<Rightarrow> Module \<Rightarrow> 'w DriverState \<Rightarrow> Function \<Rightarrow> 'w DriverState" where
  "processFunction ComputeHash addRecord FAM M st F =
     (if isDeclaration F then st
      else
        (case convertBFIToCounts M F (FAM F) of
           Inl _ \<Rightarrow> st\<lparr>FunctionsSkipped := FunctionsSkipped st + 1\<rparr>
         | Inr Cs \<Rightarrow>
             (let FuncName = IRPGOFuncName F;
                  FuncHash = computeFunctionHash ComputeHash M F;
                  Record = \<lparr>Name = FuncName, Hash = FuncHash, Counts = Cs\<rparr>;
                  (Errs, W) = addRecord (Writer st) Record
              in st\<lparr>Writer := W,
                    FunctionsSkipped := FunctionsSkipped st + of_nat (length Errs),
                    FunctionsProcessed := FunctionsProcessed st + 1\<rparr>)))"

fun runFunctions ::
  "(string \<Rightarrow> u64) \<Rightarrow> ('w \<Rightarrow> NamedInstrProfRecord \<Rightarrow> 'e list \<times> 'w) \<Rightarrow>
   (Function \<Rightarrow> BlockFrequencyInfo) \<Rightarrow> Module \<Rightarrow> 'w DriverState \<Rightarrow> Function list \<Rightarrow> 'w DriverState" where
  "runFunctions ComputeHash addRecord FAM M st [] = st"
| "runFunctions ComputeHash addRecord FAM M st (F # Fs) =
     runFunctions ComputeHash addRecord FAM M (processFunction ComputeHash addRecord FAM M st F) Fs"

definition initialState :: "'w \<Rightarrow> 'w DriverState" where
  "initialState W = \<lparr>Writer = W, FunctionsProcessed = 0, FunctionsSkipped = 0\<rparr>"

text \<open>The loop \<^verbatim>\<open>for (Function &F : M)\<close> from a fresh writer and zeroed tallies.\<close>

definition runModule ::
  "(string \<Rightarrow> u64) \<Rightarrow> ('w \<Rightarrow> NamedInstrProfRecord \<Rightarrow> 'e list \<times> 'w) \<Rightarrow>
   (Function \<Rightarrow> BlockFrequencyInfo) \<Rightarrow> Module \<Rightarrow> 'w \<Rightarrow> 'w DriverState" where
  "runModule ComputeHash addRecord FAM M W =
     runFunctions ComputeHash addRecord FAM M (initialState W) (Functions M)"

section \<open>Concrete inputs\<close>

text \<open>A stand-in for the name hash, and a function named \<open>f\<close> with the given blocks.\<close>

definition lengthHash :: "string \<Rightarrow> u64" where
  "lengthHash s = of_nat (length s)"

definition functionF :: "BasicBlock list \<Rightarrow> Function" where
  "functionF bs = \<lparr>PGOFuncName = ''f'', IRPGOFuncName = ''f'', Blocks = bs\<rparr>"

text \<open>A module without instrumentation metadata.\<close>

definition plainModule :: "Function list \<Rightarrow> Module" where
  "plainModule Fs = \<lparr>NamedGlobal = Map.empty, Functions = Fs\<rparr>"

text \<open>A module whose \<^verbatim>\<open>__profd_f\<close> global announces \<open>n\<close> counters.\<close>

definition instrumentedModule :: "u64 \<Rightarrow> Function list \<Rightarrow> Module" where
  "instrumentedModule n Fs =
     \<lparr>NamedGlobal =
        [''__profd_f'' \<mapsto>
           \<lparr>Initializer = Some (ConstantStruct
              [ConstantInt 1, ConstantInt 0, ConstantInt 0, ConstantInt 0,
               OtherConstant, OtherConstant, ConstantInt n])\<rparr>],
      Functions = Fs\<rparr>"

text \<open>A module with a coverage record for \<open>f\<close> under \<open>lengthHash\<close>, structural hash 48879.\<close>

definition coverageModule :: "Function list \<Rightarrow> Module" where
  "coverageModule Fs =
     \<lparr>NamedGlobal =
        [''__covrec_0000000000000001u'' \<mapsto>
           \<lparr>Initializer = Some (ConstantStruct [ConstantInt 1, ConstantInt 0, ConstantInt 48879])\<rparr>],
      Functions = Fs\<rparr>"

text \<open>Block frequencies given as an association list; blocks not listed have frequency 0.\<close>

definition freqTable :: "(BasicBlock \<times> u64) list \<Rightarrow> BlockFrequencyInfo" where
  "freqTable t BB = (case map_of t BB of Some f \<Rightarrow> f | None \<Rightarrow> 0)"

text \<open>
  A writer for evaluation: it keeps the records it accepted and reports one error for a
  record whose name and hash it already holds.
\<close>

datatype SinkError = DuplicateRecord

definition addRecordNoDuplicates ::
  "NamedInstrProfRecord list \<Rightarrow> NamedInstrProfRecord \<Rightarrow> SinkError list \<times> NamedInstrProfRecord list" where
  "addRecordNoDuplicates W R =
     (if (Name R, Hash R) \<in> set (map (\<lambda>R'. (Name R', Hash R')) W)
      then ([DuplicateRecord], W)
      else ([], W @ [R]))"

section \<open>The counter assigned to a slot\<close>

text \<open>
  What one iteration of the assignment loop appends for slot \<open>k\<close>, with the index read
  as a natural number.
\<close>

definition counterSlot :: "u64 list \<Rightarrow> nat \<Rightarrow> u64" where
  "counterSlot BlockFreqs k =
     (if k < length BlockFreqs then BlockFreqs ! k else DefaultEntryCount div of_nat (k + 1))"

section \<open>The spec's scaled list\<close>

text \<open>
  The scaling function as the spec words it, in exact arithmetic on natural numbers:
  \<open>scaled(b) = floor(BASE_SCALE * freq(b) / entryFreq)\<close>, and the list of these values over
  the blocks, sorted in descending order. It is compared below with the list the code
  builds from \<open>ScaledCount\<close>, whose product wraps at 64 bits.
\<close>

definition specScaled :: "nat \<Rightarrow> nat \<Rightarrow> nat" where
  "specScaled entryFreq freq = (100 * freq) div entryFreq"

definition specSortedScaled :: "BlockFrequencyInfo \<Rightarrow> BasicBlock \<Rightarrow> BasicBlock list \<Rightarrow> nat list" where
  "specSortedScaled BFI EntryBB Bs =
     rev (sort (map (\<lambda>BB. specScaled (unat (BFI EntryBB)) (unat (BFI BB))) Bs))"

section \<open>The assignment loop in closed form\<close>

lemma unat_succ_below: "(i :: u32) < N \<Longrightarrow> unat (i + 1) = unat i + 1"
  by unat_arith

lemma ucast_succ_below: "(i :: u32) < N \<Longrightarrow> (ucast (i + 1) :: u64) = of_nat (unat i + 1)"
proof -
  assume lt: "i < N"
  have "(ucast (i + 1) :: u64) = of_nat (unat (i + 1))" by simp
  then show ?thesis by (simp only: unat_succ_below [OF lt])
qed

lemma assignCounters_closed:
  "i \<le> N \<Longrightarrow> assignCounters i N B C = C @ map (counterSlot B) [unat i..<unat N]"
proof (induction i N B C rule: assignCounters.induct)
  case (1 i N B C)
  show ?case
  proof (cases "i < N")
    case True
    then have le: "i + 1 \<le> N" by (rule inc_le)
    have lt: "unat i < unat N" using True by (simp add: word_less_nat_alt)
    have upt: "[unat i..<unat N] = unat i # [unat (i + 1)..<unat N]"
      using lt by (simp add: upt_conv_Cons unat_succ_below [OF True])
    have slot: "(if unat i < length B then B ! unat i else DefaultEntryCount div ucast (i + 1))
                = counterSlot B (unat i)"
      by (simp only: counterSlot_def ucast_succ_below [OF True])
    have "assignCounters i N B C = assignCounters (i + 1) N B (C @ [counterSlot B (unat i)])"
      using True by (subst assignCounters.simps) (simp only: slot if_True)
    also have "\<dots> = (C @ [counterSlot B (unat i)]) @ map (counterSlot B) [unat (i + 1)..<unat N]"
      using "1.IH" [OF True le] by (simp only: slot)
    finally show ?thesis by (simp add: upt)
  next
    case False
    with "1.prems" have "i = N" by simp
    then show ?thesis by (subst assignCounters.simps) simp
  qed
qed

lemma sortDescending_nth_mono:
  "i \<le> j \<Longrightarrow> j < length xs \<Longrightarrow> sortDescending xs ! j \<le> sortDescending xs ! i"
  by (rule sorted_rev_nth_mono) (simp_all add: sortDescending_def)

lemma unat_padding:
  "k + 1 < 2 ^ 32 \<Longrightarrow> unat (DefaultEntryCount div of_nat (k + 1)) = 100 div (k + 1)"
proof -
  assume "k + 1 < 2 ^ 32"
  then have "k + 1 < 2 ^ LENGTH(64)" by simp
  then have "unat (of_nat (k + 1) :: u64) = k + 1"
    by (simp only: unat_of_nat mod_less)
  then show ?thesis
    by (simp add: DefaultEntryCount_def unat_div)
qed


lemma instrumented_counts:
  "assignCounters 1 N B [DefaultEntryCount] = DefaultEntryCount # map (counterSlot B) [1..<unat N]"
proof (cases "N = 0")
  case True
  then show ?thesis by (subst assignCounters.simps) simp
next
  case False
  then have "1 \<le> N" by (simp add: word_le_nat_alt unat_gt_0 Suc_le_eq)
  then show ?thesis by (simp add: assignCounters_closed)
qed

lemma convert_instrumented:
  assumes "Blocks F = EntryBB # Rest" and "BFI EntryBB \<noteq> 0"
    and "tryExtractCounterCount M F = Some N"
  shows "convertBFIToCounts M F BFI =
           Inr (DefaultEntryCount #
                map (counterSlot (sortDescending (map (\<lambda>BB. ScaledCount (BFI EntryBB) (BFI BB)) (Blocks F))))
                    [1..<unat N])"
  using assms by (simp add: convertBFIToCounts_def instrumented_counts Let_def)

lemma convert_uninstrumented:
  assumes "Blocks F = EntryBB # Rest" and "BFI EntryBB \<noteq> 0"
    and "tryExtractCounterCount M F = None"
  shows "convertBFIToCounts M F BFI =
           Inr (map (\<lambda>BB. ScaledCount (BFI EntryBB) (BFI BB)) (Blocks F))"
  using assms by (simp add: convertBFIToCounts_def Let_def)

lemma unat_ScaledCount:
  "unat (ScaledCount e f) = ((100 * unat f) mod 2 ^ 64) div unat e"
proof -
  have "unat (100 * f :: u64) = (100 * unat f) mod 2 ^ 64"
    by (simp add: unat_word_ariths)
  then show ?thesis
    by (simp only: ScaledCount_def DefaultEntryCount_def unat_div)
qed

lemma length_sortDescending: "length (sortDescending xs) = length xs"
  by (simp add: sortDescending_def)

lemma set_sortDescending: "set (sortDescending xs) = set xs"
  by (simp add: sortDescending_def)

lemma instrumented_nth:
  "1 \<le> i \<Longrightarrow> i < n \<Longrightarrow> (d # map (counterSlot B) [1..<n]) ! i = counterSlot B i"
  by (cases i) simp_all

lemma ScaledCount_entry:
  assumes "e \<noteq> 0" and "100 * unat e < 2 ^ 64"
  shows "ScaledCount e e = DefaultEntryCount"
proof -
  have pos: "0 < unat e" using assms(1) by (simp add: unat_gt_0)
  have "unat (ScaledCount e e) = ((100 * unat e) mod 2 ^ 64) div unat e"
    by (rule unat_ScaledCount)
  also have "\<dots> = (100 * unat e) div unat e" using assms(2) by simp
  also have "\<dots> = 100" using pos by simp
  finally have "unat (ScaledCount e e) = unat (100 :: u64)" by simp
  then show ?thesis by (simp only: word_unat_eq_iff DefaultEntryCount_def)
qed

lemma convert_zero_entry:
  assumes "Blocks F = EntryBB # Rest" and "BFI EntryBB = 0"
  shows "convertBFIToCounts M F BFI = Inl ZeroEntryFrequency"
  using assms by (simp add: convertBFIToCounts_def)

lemma processFunction_submitted:
  assumes "Blocks F \<noteq> []" and "convertBFIToCounts M F (FAM F) = Inr Cs"
    and "addRecord (Writer st)
           \<lparr>Name = IRPGOFuncName F, Hash = computeFunctionHash ComputeHash M F, Counts = Cs\<rparr>
         = (Errs, W)"
  shows "processFunction ComputeHash addRecord FAM M st F
         = st\<lparr>Writer := W,
               FunctionsSkipped := FunctionsSkipped st + of_nat (length Errs),
               FunctionsProcessed := FunctionsProcessed st + 1\<rparr>"
  using assms by (simp add: processFunction_def isDeclaration_def)

lemma insort_map_unat: "insort (unat x) (map unat (ys :: u64 list)) = map unat (insort x ys)"
  by (induction ys) (simp_all add: word_le_nat_alt)

lemma sort_map_unat: "sort (map unat (xs :: u64 list)) = map unat (sort xs)"
  by (induction xs) (simp_all add: insort_map_unat)

lemma map_unat_sortDescending:
  "map unat (sortDescending xs) = rev (sort (map unat xs))"
  by (simp add: sortDescending_def sort_map_unat rev_map)

lemma specSortedScaled_code_list:
  assumes "\<forall>BB \<in> set Bs. 100 * unat (BFI BB) < 2 ^ 64"
  shows "map unat (sortDescending (map (\<lambda>BB. ScaledCount (BFI EntryBB) (BFI BB)) Bs))
         = specSortedScaled BFI EntryBB Bs"
proof -
  have "map unat (map (\<lambda>BB. ScaledCount (BFI EntryBB) (BFI BB)) Bs)
        = map (\<lambda>BB. specScaled (unat (BFI EntryBB)) (unat (BFI BB))) Bs"
    using assms by (simp add: unat_ScaledCount specScaled_def)
  then show ?thesis
    by (simp only: map_unat_sortDescending specSortedScaled_def)
qed

section \<open>The instrumented path\<close>

text \<open>
  Claim C1, as the code has it: for a function with a body, a nonzero entry frequency and
  a counter-count hint \<open>N\<close>, the conversion succeeds, the first count is
  \<open>DefaultEntryCount = 100\<close>, and the vector has \<open>max 1 N\<close> elements: exactly \<open>N\<close> for
  \<open>N \<ge> 1\<close>, and one element for \<open>N = 0\<close>, because counter 0 is pushed before the loop.
\<close>

theorem instrumented_length_and_entry:
  assumes "Blocks F = EntryBB # Rest" and "BFI EntryBB \<noteq> 0"
    and "tryExtractCounterCount M F = Some N"
  shows "\<exists>Cs. convertBFIToCounts M F BFI = Inr Cs \<and> length Cs = max 1 (unat N)
              \<and> Cs ! 0 = DefaultEntryCount \<and> DefaultEntryCount = 100"
  using convert_instrumented [where BFI = BFI and EntryBB = EntryBB, OF assms] by (auto simp: DefaultEntryCount_def)

text \<open>The theorem at a two-block function with hint 3.\<close>

theorem instrumented_length_and_entry_witness:
  "Blocks (functionF [0, 1]) = 0 # [1] \<and> freqTable [(0, 10), (1, 5)] 0 \<noteq> 0
   \<and> tryExtractCounterCount (instrumentedModule 3 [functionF [0, 1]]) (functionF [0, 1]) = Some 3
   \<and> (\<exists>Cs. convertBFIToCounts (instrumentedModule 3 [functionF [0, 1]]) (functionF [0, 1])
               (freqTable [(0, 10), (1, 5)]) = Inr Cs
            \<and> length Cs = 3 \<and> Cs ! 0 = 100)"
proof -
  have b: "Blocks (functionF [0, 1]) = 0 # [1]" by (simp add: functionF_def)
  have f: "freqTable [(0, 10), (1, 5)] 0 \<noteq> 0" by (simp add: freqTable_def)
  have h: "tryExtractCounterCount (instrumentedModule 3 [functionF [0, 1]]) (functionF [0, 1]) = Some 3"
    by (simp add: tryExtractCounterCount_def instrumentedModule_def functionF_def)
  show ?thesis
    using instrumented_length_and_entry [where BFI = "freqTable [(0, 10), (1, 5)]" and EntryBB = 0, OF b f h] b f h
    by auto
qed

text \<open>
  With hint 0 the vector is \<open>[100]\<close>: its length is 1, not the hint.
\<close>

theorem zero_counter_hint_counterexample:
  "tryExtractCounterCount (instrumentedModule 0 [functionF [0]]) (functionF [0]) = Some 0
   \<and> freqTable [(0, 1)] (hd (Blocks (functionF [0]))) \<noteq> 0
   \<and> convertBFIToCounts (instrumentedModule 0 [functionF [0]]) (functionF [0]) (freqTable [(0, 1)])
       = Inr [100]
   \<and> length [100 :: u64] \<noteq> unat (0 :: u32)"
  by code_simp

text \<open>
  Claim C3, as the code has it: two blocks with frequencies 10 and 5 and hint 3 give
  \<open>[100, 50, 33]\<close>. Counter 1 takes index 1 of the sorted list \<open>[100, 50]\<close>, and counter 2
  lies beyond the block count and takes the padding value \<open>100 div 3\<close>.
\<close>

theorem scenario_two_blocks_three_counters:
  assumes "Blocks F = [B0, B1]" and "BFI B0 = 10" and "BFI B1 = 5"
    and "tryExtractCounterCount M F = Some 3"
  shows "convertBFIToCounts M F BFI = Inr [100, 50, 33]"
proof -
  have nz: "BFI B0 \<noteq> 0" using assms(2) by simp
  have bf: "map (\<lambda>BB. ScaledCount (BFI B0) (BFI BB)) (Blocks F) = [100, 50]"
    by (simp add: assms(1,2,3) ScaledCount_def DefaultEntryCount_def)
  have s: "sortDescending [100, 50] = [100, 50 :: u64]"
    by (simp add: sortDescending_def)
  have u: "[1..<unat (3 :: u32)] = [1, 2]"
    by (simp add: upt_conv_Cons)
  have m: "map (counterSlot [100, 50]) [1, 2] = [50, 33]"
    by (simp add: counterSlot_def DefaultEntryCount_def)
  have "convertBFIToCounts M F BFI =
          Inr (DefaultEntryCount #
               map (counterSlot (sortDescending (map (\<lambda>BB. ScaledCount (BFI B0) (BFI BB)) (Blocks F))))
                   [1..<unat (3 :: u32)])"
    by (rule convert_instrumented [where BFI = BFI and EntryBB = B0, OF assms(1) nz assms(4)])
  then show ?thesis
    by (simp only: bf s u m DefaultEntryCount_def)
qed

text \<open>The scenario on the concrete module with the \<^verbatim>\<open>__profd_f\<close> global.\<close>

theorem scenario_two_blocks_three_counters_witness:
  "Blocks (functionF [0, 1]) = [0, 1] \<and> freqTable [(0, 10), (1, 5)] 0 = 10
   \<and> freqTable [(0, 10), (1, 5)] 1 = 5
   \<and> tryExtractCounterCount (instrumentedModule 3 [functionF [0, 1]]) (functionF [0, 1]) = Some 3
   \<and> convertBFIToCounts (instrumentedModule 3 [functionF [0, 1]]) (functionF [0, 1])
         (freqTable [(0, 10), (1, 5)]) = Inr [100, 50, 33]"
proof -
  have b: "Blocks (functionF [0, 1]) = [0, 1]" by (simp add: functionF_def)
  have f0: "freqTable [(0, 10), (1, 5)] 0 = 10" and f1: "freqTable [(0, 10), (1, 5)] 1 = 5"
    by (simp_all add: freqTable_def)
  have h: "tryExtractCounterCount (instrumentedModule 3 [functionF [0, 1]]) (functionF [0, 1]) = Some 3"
    by (simp add: tryExtractCounterCount_def instrumentedModule_def functionF_def)
  show ?thesis
    using scenario_two_blocks_three_counters
            [where BFI = "freqTable [(0, 10), (1, 5)]" and ?B0.0 = 0 and ?B1.0 = 1, OF b f0 f1 h]
          b f0 f1 h
    by blast
qed

text \<open>The vector \<open>[100, 100, 50]\<close> is not what the conversion returns there.\<close>

theorem scenario_two_blocks_three_counters_counterexample:
  "Blocks (functionF [0, 1]) = [0, 1] \<and> freqTable [(0, 10), (1, 5)] 0 = 10
   \<and> freqTable [(0, 10), (1, 5)] 1 = 5
   \<and> tryExtractCounterCount (instrumentedModule 3 [functionF [0, 1]]) (functionF [0, 1]) = Some 3
   \<and> convertBFIToCounts (instrumentedModule 3 [functionF [0, 1]]) (functionF [0, 1])
         (freqTable [(0, 10), (1, 5)]) \<noteq> Inr [100, 100, 50]"
  by code_simp

text \<open>
  Claim C4, as the code has it: with a hint \<open>N\<close> not above the number of blocks, every
  count in slots \<open>1 .. N - 1\<close> is the element of the same index of the descending-sorted
  list of the block counts as the code scales them (64-bit product, wrapped), so it
  belongs to that list, and the counts of these slots are non-increasing. When
  \<open>100 * freq < 2 ^ 64\<close> for every block, that list is the spec's sorted list of
  \<open>floor (100 * freq / entryFreq)\<close>, and the slots are its elements of the same index.
\<close>

theorem fewer_counters_than_blocks:
  assumes "Blocks F = EntryBB # Rest" and "BFI EntryBB \<noteq> 0"
    and "tryExtractCounterCount M F = Some N"
    and "unat N \<le> length (Blocks F)"
  shows "\<exists>Cs. convertBFIToCounts M F BFI = Inr Cs
              \<and> (\<forall>i. 1 \<le> i \<and> i < unat N \<longrightarrow>
                     Cs ! i = sortDescending (map (\<lambda>BB. ScaledCount (BFI EntryBB) (BFI BB)) (Blocks F)) ! i
                   \<and> Cs ! i \<in> set (sortDescending (map (\<lambda>BB. ScaledCount (BFI EntryBB) (BFI BB)) (Blocks F))))
              \<and> (\<forall>i j. 1 \<le> i \<and> i \<le> j \<and> j < unat N \<longrightarrow> Cs ! j \<le> Cs ! i)
              \<and> ((\<forall>BB \<in> set (Blocks F). 100 * unat (BFI BB) < 2 ^ 64) \<longrightarrow>
                   (\<forall>i. 1 \<le> i \<and> i < unat N \<longrightarrow>
                      unat (Cs ! i) = specSortedScaled BFI EntryBB (Blocks F) ! i
                    \<and> unat (Cs ! i) \<in> set (specSortedScaled BFI EntryBB (Blocks F))))"
proof -
  let ?S = "sortDescending (map (\<lambda>BB. ScaledCount (BFI EntryBB) (BFI BB)) (Blocks F))"
  let ?Cs = "DefaultEntryCount # map (counterSlot ?S) [1..<unat N]"
  let ?T = "specSortedScaled BFI EntryBB (Blocks F)"
  have c: "convertBFIToCounts M F BFI = Inr ?Cs"
    by (rule convert_instrumented [where BFI = BFI and EntryBB = EntryBB, OF assms(1,2,3)])
  have len: "length ?S = length (Blocks F)" by (simp add: length_sortDescending)
  have nth: "?Cs ! i = ?S ! i" if "1 \<le> i" "i < unat N" for i
  proof -
    have "i < length ?S" using that assms(4) len by simp
    then show ?thesis using instrumented_nth [OF that] by (simp add: counterSlot_def)
  qed
  have mem: "?Cs ! i \<in> set ?S" if "1 \<le> i" "i < unat N" for i
  proof -
    have "i < length ?S" using that assms(4) len by simp
    then show ?thesis using nth [OF that] by simp
  qed
  have mono: "?Cs ! j \<le> ?Cs ! i" if "1 \<le> i" "i \<le> j" "j < unat N" for i j
  proof -
    have j: "j < length (map (\<lambda>BB. ScaledCount (BFI EntryBB) (BFI BB)) (Blocks F))"
      using that assms(4) by simp
    have "?S ! j \<le> ?S ! i" by (rule sortDescending_nth_mono [OF that(2) j])
    moreover have "?Cs ! j = ?S ! j" using that by (intro nth) simp_all
    moreover have "?Cs ! i = ?S ! i" using that by (intro nth) simp_all
    ultimately show ?thesis by simp
  qed
  have spec: "unat (?Cs ! i) = ?T ! i \<and> unat (?Cs ! i) \<in> set ?T"
    if nowrap: "\<forall>BB \<in> set (Blocks F). 100 * unat (BFI BB) < 2 ^ 64" and "1 \<le> i" "i < unat N" for i
  proof -
    have eq: "map unat ?S = ?T" by (rule specSortedScaled_code_list [OF nowrap])
    have i: "i < length ?S" using that(2,3) assms(4) len by simp
    have "unat (?Cs ! i) = unat (?S ! i)" using nth [OF that(2,3)] by simp
    also have "\<dots> = map unat ?S ! i" using i by simp
    finally have v: "unat (?Cs ! i) = ?T ! i" by (simp only: eq)
    have "i < length ?T" using i eq by (metis length_map)
    then have "?T ! i \<in> set ?T" by simp
    then show ?thesis using v by simp
  qed
  show ?thesis using c nth mem mono spec by blast
qed

text \<open>
  Three blocks scaled to 100, 50 and 200, hint 3: no product wraps, the spec's sorted list
  is \<open>[200, 100, 50]\<close>, and slots 1 and 2 hold 100 and 50.
\<close>

theorem fewer_counters_than_blocks_witness:
  "Blocks (functionF [0, 1, 2]) = 0 # [1, 2] \<and> freqTable [(0, 10), (1, 5), (2, 20)] 0 \<noteq> 0
   \<and> tryExtractCounterCount (instrumentedModule 3 [functionF [0, 1, 2]]) (functionF [0, 1, 2]) = Some 3
   \<and> unat (3 :: u32) \<le> length (Blocks (functionF [0, 1, 2]))
   \<and> 100 * unat (freqTable [(0, 10), (1, 5), (2, 20)] 0) < (2 :: nat) ^ 64
   \<and> 100 * unat (freqTable [(0, 10), (1, 5), (2, 20)] 1) < (2 :: nat) ^ 64
   \<and> 100 * unat (freqTable [(0, 10), (1, 5), (2, 20)] 2) < (2 :: nat) ^ 64
   \<and> specSortedScaled (freqTable [(0, 10), (1, 5), (2, 20)]) 0 (Blocks (functionF [0, 1, 2]))
       = [200, 100, 50]
   \<and> (\<exists>Cs. convertBFIToCounts (instrumentedModule 3 [functionF [0, 1, 2]]) (functionF [0, 1, 2])
               (freqTable [(0, 10), (1, 5), (2, 20)]) = Inr Cs
            \<and> Cs ! 1 = 100 \<and> Cs ! 2 = 50 \<and> Cs ! 2 \<le> Cs ! 1
            \<and> unat (Cs ! 1) = 100 \<and> unat (Cs ! 2) = 50)"
proof -
  let ?F = "functionF [0, 1, 2]"
  let ?BFI = "freqTable [(0, 10), (1, 5), (2, 20)]"
  let ?M = "instrumentedModule 3 [?F]"
  have b: "Blocks ?F = 0 # [1, 2]" by (simp add: functionF_def)
  have f: "?BFI 0 \<noteq> 0" by (simp add: freqTable_def)
  have h: "tryExtractCounterCount ?M ?F = Some 3"
    by (simp add: tryExtractCounterCount_def instrumentedModule_def functionF_def)
  have n: "unat (3 :: u32) \<le> length (Blocks ?F)" by (simp add: functionF_def)
  have w: "\<forall>BB \<in> set (Blocks ?F). 100 * unat (?BFI BB) < (2 :: nat) ^ 64"
    by (simp add: functionF_def freqTable_def)
  have s: "sortDescending (map (\<lambda>BB. ScaledCount (?BFI 0) (?BFI BB)) (Blocks ?F)) = [200, 100, 50]"
    by (simp add: sortDescending_def functionF_def freqTable_def ScaledCount_def DefaultEntryCount_def)
  have t: "specSortedScaled ?BFI 0 (Blocks ?F) = [200, 100, 50]"
    by (simp add: specSortedScaled_def specScaled_def functionF_def freqTable_def)
  obtain Cs where c: "convertBFIToCounts ?M ?F ?BFI = Inr Cs"
    and v: "\<And>i. 1 \<le> i \<and> i < unat (3 :: u32) \<Longrightarrow>
              Cs ! i = sortDescending (map (\<lambda>BB. ScaledCount (?BFI 0) (?BFI BB)) (Blocks ?F)) ! i"
    and m: "\<And>i j. 1 \<le> i \<and> i \<le> j \<and> j < unat (3 :: u32) \<Longrightarrow> Cs ! j \<le> Cs ! i"
    and u: "\<And>i. \<forall>BB \<in> set (Blocks ?F). 100 * unat (?BFI BB) < (2 :: nat) ^ 64 \<Longrightarrow>
              1 \<le> i \<and> i < unat (3 :: u32) \<Longrightarrow>
              unat (Cs ! i) = specSortedScaled ?BFI 0 (Blocks ?F) ! i"
    using fewer_counters_than_blocks [where BFI = ?BFI and EntryBB = 0, OF b f h n] by blast
  have i1: "1 \<le> (1 :: nat) \<and> 1 < unat (3 :: u32)" and i2: "1 \<le> (2 :: nat) \<and> 2 < unat (3 :: u32)"
    and i12: "1 \<le> (1 :: nat) \<and> (1 :: nat) \<le> 2 \<and> 2 < unat (3 :: u32)"
    by simp_all
  have "Cs ! 1 = [200, 100, 50] ! 1" using v [OF i1] by (simp only: s)
  then have c1: "Cs ! 1 = 100" by simp
  have "Cs ! 2 = [200, 100, 50] ! 2" using v [OF i2] by (simp only: s)
  then have c2: "Cs ! 2 = 50" by simp
  have le: "Cs ! 2 \<le> Cs ! 1" by (rule m [OF i12])
  have "unat (Cs ! 1) = [200, 100, 50] ! 1" using u [OF w i1] by (simp only: t)
  then have u1: "unat (Cs ! 1) = 100" by simp
  have "unat (Cs ! 2) = [200, 100, 50] ! 2" using u [OF w i2] by (simp only: t)
  then have u2: "unat (Cs ! 2) = 50" by simp
  have w0: "100 * unat (?BFI 0) < (2 :: nat) ^ 64" and w1: "100 * unat (?BFI 1) < (2 :: nat) ^ 64"
    and w2: "100 * unat (?BFI 2) < (2 :: nat) ^ 64"
    by (simp_all add: freqTable_def)
  show ?thesis using b f h n w0 w1 w2 t c c1 c2 le u1 u2 by blast
qed

text \<open>
  Two blocks of frequencies \<open>2 ^ 60\<close> and \<open>2 ^ 61\<close>, hint 2: the products wrap, the counts
  are \<open>[100, 4]\<close>, and 4 is not an element of the spec's sorted list \<open>[200, 100]\<close>.
\<close>

theorem sorted_slot_overflow_counterexample:
  "Blocks (functionF [0, 1]) = 0 # [1]
   \<and> freqTable [(0, 1152921504606846976), (1, 2305843009213693952)] 0 \<noteq> 0
   \<and> tryExtractCounterCount (instrumentedModule 2 [functionF [0, 1]]) (functionF [0, 1]) = Some 2
   \<and> unat (2 :: u32) \<le> length (Blocks (functionF [0, 1]))
   \<and> convertBFIToCounts (instrumentedModule 2 [functionF [0, 1]]) (functionF [0, 1])
         (freqTable [(0, 1152921504606846976), (1, 2305843009213693952)]) = Inr [100, 4]
   \<and> specSortedScaled (freqTable [(0, 1152921504606846976), (1, 2305843009213693952)]) 0
         (Blocks (functionF [0, 1])) = [200, 100]
   \<and> unat (([100, 4] :: u64 list) ! 1)
       \<notin> set (specSortedScaled (freqTable [(0, 1152921504606846976), (1, 2305843009213693952)]) 0
                 (Blocks (functionF [0, 1])))"
proof -
  let ?F = "functionF [0, 1]"
  let ?BFI = "freqTable [(0, 1152921504606846976), (1, 2305843009213693952)]"
  let ?M = "instrumentedModule 2 [?F]"
  have b: "Blocks ?F = 0 # [1]" by (simp add: functionF_def)
  have f: "?BFI 0 \<noteq> 0" by (simp add: freqTable_def)
  have h: "tryExtractCounterCount ?M ?F = Some 2"
    by (simp add: tryExtractCounterCount_def instrumentedModule_def functionF_def)
  have n: "unat (2 :: u32) \<le> length (Blocks ?F)" by (simp add: functionF_def)
  have s: "sortDescending (map (\<lambda>BB. ScaledCount (?BFI 0) (?BFI BB)) (Blocks ?F)) = [8, 4]"
    by (simp add: sortDescending_def functionF_def freqTable_def ScaledCount_def DefaultEntryCount_def)
  have u: "[1..<unat (2 :: u32)] = [1]" by (simp add: upt_conv_Cons)
  have m: "map (counterSlot [8, 4]) [1] = [4]" by (simp add: counterSlot_def)
  have "convertBFIToCounts ?M ?F ?BFI =
          Inr (DefaultEntryCount #
               map (counterSlot (sortDescending (map (\<lambda>BB. ScaledCount (?BFI 0) (?BFI BB)) (Blocks ?F))))
                   [1..<unat (2 :: u32)])"
    by (rule convert_instrumented [where BFI = ?BFI and EntryBB = 0, OF b f h])
  then have c: "convertBFIToCounts ?M ?F ?BFI = Inr [100, 4]"
    by (simp only: s u m DefaultEntryCount_def)
  have t: "specSortedScaled ?BFI 0 (Blocks ?F) = [200, 100]"
    by (simp add: specSortedScaled_def specScaled_def functionF_def freqTable_def)
  have d: "unat (([100, 4] :: u64 list) ! 1) \<notin> set (specSortedScaled ?BFI 0 (Blocks ?F))"
    unfolding t by simp
  show ?thesis using b f h n c t d by blast
qed

text \<open>
  Claim C5, as the code has it: with a hint \<open>N\<close> above the number of blocks, every slot
  \<open>i\<close> at or beyond the block count holds \<open>100 div (i + 1)\<close>, and these padding values
  are non-increasing as \<open>i\<close> grows. They are not strictly decreasing: integer division
  repeats values.
\<close>

theorem more_counters_than_blocks:
  assumes "Blocks F = EntryBB # Rest" and "BFI EntryBB \<noteq> 0"
    and "tryExtractCounterCount M F = Some N"
    and "length (Blocks F) < unat N"
  shows "\<exists>Cs. convertBFIToCounts M F BFI = Inr Cs
              \<and> (\<forall>i. length (Blocks F) \<le> i \<and> i < unat N \<longrightarrow> unat (Cs ! i) = 100 div (i + 1))
              \<and> (\<forall>i j. length (Blocks F) \<le> i \<and> i \<le> j \<and> j < unat N \<longrightarrow> Cs ! j \<le> Cs ! i)"
proof -
  let ?S = "sortDescending (map (\<lambda>BB. ScaledCount (BFI EntryBB) (BFI BB)) (Blocks F))"
  let ?Cs = "DefaultEntryCount # map (counterSlot ?S) [1..<unat N]"
  have c: "convertBFIToCounts M F BFI = Inr ?Cs"
    by (rule convert_instrumented [where BFI = BFI and EntryBB = EntryBB, OF assms(1,2,3)])
  have len: "length ?S = length (Blocks F)" by (simp add: length_sortDescending)
  have pos: "1 \<le> length (Blocks F)" using assms(1) by simp
  have bound: "unat N < 2 ^ 32" using unsigned_less [of N] by simp
  have pad: "unat (?Cs ! i) = 100 div (i + 1)" if "length (Blocks F) \<le> i" "i < unat N" for i
  proof -
    have i1: "1 \<le> i" using that pos by simp
    have "?Cs ! i = counterSlot ?S i" by (rule instrumented_nth [OF i1 that(2)])
    also have "\<dots> = DefaultEntryCount div of_nat (i + 1)"
      using that(1) len by (simp add: counterSlot_def)
    finally have "unat (?Cs ! i) = unat (DefaultEntryCount div of_nat (i + 1))" by simp
    moreover have "i + 1 < 2 ^ 32" using that(2) bound by simp
    ultimately show ?thesis by (simp only: unat_padding)
  qed
  have mono: "?Cs ! j \<le> ?Cs ! i" if "length (Blocks F) \<le> i" "i \<le> j" "j < unat N" for i j
  proof -
    have "unat (?Cs ! j) = 100 div (j + 1)" using that by (intro pad) simp_all
    moreover have "unat (?Cs ! i) = 100 div (i + 1)" using that by (intro pad) simp_all
    moreover have "(100 :: nat) div (j + 1) \<le> 100 div (i + 1)"
      using that(2) by (intro div_le_mono2) simp_all
    ultimately show ?thesis by (simp add: word_le_nat_alt)
  qed
  show ?thesis using c pad mono by blast
qed

text \<open>One block and hint 3: the padding values are 50 and 33.\<close>

theorem more_counters_than_blocks_witness:
  "Blocks (functionF [0]) = 0 # [] \<and> freqTable [(0, 1)] 0 \<noteq> 0
   \<and> tryExtractCounterCount (instrumentedModule 3 [functionF [0]]) (functionF [0]) = Some 3
   \<and> length (Blocks (functionF [0])) < unat (3 :: u32)
   \<and> (\<exists>Cs. convertBFIToCounts (instrumentedModule 3 [functionF [0]]) (functionF [0])
               (freqTable [(0, 1)]) = Inr Cs
            \<and> unat (Cs ! 1) = 50 \<and> unat (Cs ! 2) = 33 \<and> Cs ! 2 \<le> Cs ! 1)"
proof -
  let ?F = "functionF [0]"
  let ?BFI = "freqTable [(0, 1)]"
  let ?M = "instrumentedModule 3 [?F]"
  have b: "Blocks ?F = 0 # []" by (simp add: functionF_def)
  have f: "?BFI 0 \<noteq> 0" by (simp add: freqTable_def)
  have h: "tryExtractCounterCount ?M ?F = Some 3"
    by (simp add: tryExtractCounterCount_def instrumentedModule_def functionF_def)
  have n: "length (Blocks ?F) < unat (3 :: u32)" by (simp add: functionF_def)
  obtain Cs where c: "convertBFIToCounts ?M ?F ?BFI = Inr Cs"
    and v: "\<And>i. length (Blocks ?F) \<le> i \<and> i < unat (3 :: u32) \<Longrightarrow> unat (Cs ! i) = 100 div (i + 1)"
    and m: "\<And>i j. length (Blocks ?F) \<le> i \<and> i \<le> j \<and> j < unat (3 :: u32) \<Longrightarrow> Cs ! j \<le> Cs ! i"
    using more_counters_than_blocks [where BFI = ?BFI and EntryBB = 0, OF b f h n] by blast
  have i1: "length (Blocks ?F) \<le> 1 \<and> 1 < unat (3 :: u32)"
    and i2: "length (Blocks ?F) \<le> 2 \<and> 2 < unat (3 :: u32)"
    and i12: "length (Blocks ?F) \<le> 1 \<and> (1 :: nat) \<le> 2 \<and> 2 < unat (3 :: u32)"
    by (simp_all add: functionF_def)
  have "unat (Cs ! 1) = 100 div (1 + 1)" by (rule v [OF i1])
  also have "\<dots> = 50" by code_simp
  finally have c1: "unat (Cs ! 1) = 50" .
  have "unat (Cs ! 2) = 100 div (2 + 1)" by (rule v [OF i2])
  also have "\<dots> = 33" by simp
  finally have c2: "unat (Cs ! 2) = 33" .
  have le: "Cs ! 2 \<le> Cs ! 1" by (rule m [OF i12])
  show ?thesis using b f h n c c1 c2 le by blast
qed

text \<open>One block and hint 14: slots 12 and 13 both hold 7.\<close>

theorem padding_not_strictly_decreasing_counterexample:
  "tryExtractCounterCount (instrumentedModule 14 [functionF [0]]) (functionF [0]) = Some 14
   \<and> freqTable [(0, 1)] (hd (Blocks (functionF [0]))) \<noteq> 0
   \<and> length (Blocks (functionF [0])) < unat (14 :: u32)
   \<and> convertBFIToCounts (instrumentedModule 14 [functionF [0]]) (functionF [0]) (freqTable [(0, 1)])
       = Inr [100, 50, 33, 25, 20, 16, 14, 12, 11, 10, 9, 8, 7, 7]
   \<and> \<not> ([100, 50, 33, 25, 20, 16, 14, 12, 11, 10, 9, 8, 7, 7] :: u64 list) ! 13
         < [100, 50, 33, 25, 20, 16, 14, 12, 11, 10, 9, 8, 7, 7] ! 12"
  by code_simp

section \<open>The uninstrumented path\<close>

text \<open>
  Claim C2, as the code has it: without a hint the vector has one count per block, in
  block order, and count \<open>i\<close> is the 64-bit product \<open>100 * freq\<close> (wrapped modulo
  \<open>2 ^ 64\<close>) divided by the entry frequency; this is \<open>floor (100 * freq / entryFreq)\<close>
  whenever \<open>100 * freq < 2 ^ 64\<close>.
\<close>

theorem uninstrumented_counts:
  assumes "Blocks F = EntryBB # Rest" and "BFI EntryBB \<noteq> 0"
    and "tryExtractCounterCount M F = None"
  shows "\<exists>Cs. convertBFIToCounts M F BFI = Inr Cs \<and> length Cs = length (Blocks F)
              \<and> (\<forall>i < length (Blocks F).
                    unat (Cs ! i) = ((100 * unat (BFI (Blocks F ! i))) mod 2 ^ 64) div unat (BFI EntryBB)
                  \<and> (100 * unat (BFI (Blocks F ! i)) < 2 ^ 64 \<longrightarrow>
                       unat (Cs ! i) = (100 * unat (BFI (Blocks F ! i))) div unat (BFI EntryBB)))"
proof -
  let ?Cs = "map (\<lambda>BB. ScaledCount (BFI EntryBB) (BFI BB)) (Blocks F)"
  have c: "convertBFIToCounts M F BFI = Inr ?Cs" by (rule convert_uninstrumented [where BFI = BFI and EntryBB = EntryBB, OF assms])
  have "\<forall>i < length (Blocks F).
          unat (?Cs ! i) = ((100 * unat (BFI (Blocks F ! i))) mod 2 ^ 64) div unat (BFI EntryBB)"
    by (simp add: unat_ScaledCount)
  then show ?thesis using c by auto
qed

text \<open>The theorem at a two-block function with frequencies 10 and 5: counts 100 and 50.\<close>

theorem uninstrumented_counts_witness:
  "Blocks (functionF [0, 1]) = 0 # [1] \<and> freqTable [(0, 10), (1, 5)] 0 \<noteq> 0
   \<and> tryExtractCounterCount (plainModule [functionF [0, 1]]) (functionF [0, 1]) = None
   \<and> 100 * unat (freqTable [(0, 10), (1, 5)] (Blocks (functionF [0, 1]) ! 1)) < (2 :: nat) ^ 64
   \<and> (\<exists>Cs. convertBFIToCounts (plainModule [functionF [0, 1]]) (functionF [0, 1])
               (freqTable [(0, 10), (1, 5)]) = Inr Cs
            \<and> length Cs = 2 \<and> unat (Cs ! 0) = 100 \<and> unat (Cs ! 1) = 50)"
proof -
  have b: "Blocks (functionF [0, 1]) = 0 # [1]" by (simp add: functionF_def)
  have f: "freqTable [(0, 10), (1, 5)] 0 \<noteq> 0" by (simp add: freqTable_def)
  have h: "tryExtractCounterCount (plainModule [functionF [0, 1]]) (functionF [0, 1]) = None"
    by (simp add: tryExtractCounterCount_def plainModule_def functionF_def)
  have v: "100 * unat (freqTable [(0, 10), (1, 5)] (Blocks (functionF [0, 1]) ! 1)) < (2 :: nat) ^ 64"
    by (simp add: freqTable_def functionF_def)
  obtain Cs where c: "convertBFIToCounts (plainModule [functionF [0, 1]]) (functionF [0, 1])
                        (freqTable [(0, 10), (1, 5)]) = Inr Cs"
    and l: "length Cs = length (Blocks (functionF [0, 1]))"
    and n: "\<And>i. i < length (Blocks (functionF [0, 1])) \<Longrightarrow>
              100 * unat (freqTable [(0, 10), (1, 5)] (Blocks (functionF [0, 1]) ! i)) < 2 ^ 64 \<Longrightarrow>
              unat (Cs ! i) = (100 * unat (freqTable [(0, 10), (1, 5)] (Blocks (functionF [0, 1]) ! i)))
                                div unat (freqTable [(0, 10), (1, 5)] 0)"
    using uninstrumented_counts [where BFI = "freqTable [(0, 10), (1, 5)]" and EntryBB = 0, OF b f h]
    by blast
  have l2: "length Cs = 2" using l by (simp add: functionF_def)
  have c0: "unat (Cs ! 0) = 100" using n [of 0] by (simp add: freqTable_def functionF_def)
  have c1: "unat (Cs ! 1) = 50" using n [of 1] by (simp add: freqTable_def functionF_def)
  show ?thesis using b f h v c l2 c0 c1 by blast
qed

text \<open>
  With frequencies \<open>2 ^ 60\<close> and \<open>2 ^ 61\<close> the products wrap: the counts are \<open>[4, 8]\<close>,
  while \<open>floor (100 * 2 ^ 61 / 2 ^ 60) = 200\<close>.
\<close>

theorem uninstrumented_overflow_counterexample:
  "tryExtractCounterCount (plainModule [functionF [0, 1]]) (functionF [0, 1]) = None
   \<and> freqTable [(0, 1152921504606846976), (1, 2305843009213693952)] (hd (Blocks (functionF [0, 1]))) \<noteq> 0
   \<and> convertBFIToCounts (plainModule [functionF [0, 1]]) (functionF [0, 1])
         (freqTable [(0, 1152921504606846976), (1, 2305843009213693952)]) = Inr [4, 8]
   \<and> unat (([4, 8] :: u64 list) ! 1)
       \<noteq> (100 * unat (freqTable [(0, 1152921504606846976), (1, 2305843009213693952)]
                             (Blocks (functionF [0, 1]) ! 1)))
           div unat (freqTable [(0, 1152921504606846976), (1, 2305843009213693952)]
                       (hd (Blocks (functionF [0, 1]))))"
proof -
  let ?BFI = "freqTable [(0, 1152921504606846976), (1, 2305843009213693952)]"
  have b: "Blocks (functionF [0, 1]) = 0 # [1]" by (simp add: functionF_def)
  have f: "?BFI 0 \<noteq> 0" by (simp add: freqTable_def)
  have h: "tryExtractCounterCount (plainModule [functionF [0, 1]]) (functionF [0, 1]) = None"
    by (simp add: tryExtractCounterCount_def plainModule_def functionF_def)
  have "convertBFIToCounts (plainModule [functionF [0, 1]]) (functionF [0, 1]) ?BFI =
          Inr (map (\<lambda>BB. ScaledCount (?BFI 0) (?BFI BB)) (Blocks (functionF [0, 1])))"
    by (rule convert_uninstrumented [where BFI = ?BFI and EntryBB = 0, OF b f h])
  then have c: "convertBFIToCounts (plainModule [functionF [0, 1]]) (functionF [0, 1]) ?BFI = Inr [4, 8]"
    by (simp add: functionF_def freqTable_def ScaledCount_def DefaultEntryCount_def)
  have d: "unat (([4, 8] :: u64 list) ! 1)
             \<noteq> (100 * unat (?BFI (Blocks (functionF [0, 1]) ! 1))) div unat (?BFI (hd (Blocks (functionF [0, 1]))))"
    by (simp add: functionF_def freqTable_def)
  have f': "?BFI (hd (Blocks (functionF [0, 1]))) \<noteq> 0" by (simp add: functionF_def freqTable_def)
  show ?thesis using h f' c d by blast
qed

section \<open>Both paths\<close>

text \<open>
  Claim C9, as the code has it: for a function with a body and a nonzero entry frequency
  the first count is \<open>DefaultEntryCount\<close> on the instrumented path always, and on the
  uninstrumented path whenever \<open>100 * entryFreq < 2 ^ 64\<close>, where the entry block, first in
  block order, scales to exactly 100.
\<close>

theorem first_count_is_entry_count:
  assumes "Blocks F = EntryBB # Rest" and "BFI EntryBB \<noteq> 0"
    and "tryExtractCounterCount M F = None \<longrightarrow> 100 * unat (BFI EntryBB) < 2 ^ 64"
  shows "\<exists>Cs. convertBFIToCounts M F BFI = Inr Cs \<and> Cs ! 0 = DefaultEntryCount"
proof (cases "tryExtractCounterCount M F")
  case None
  then have "100 * unat (BFI EntryBB) < 2 ^ 64" using assms(3) by simp
  then have e: "ScaledCount (BFI EntryBB) (BFI EntryBB) = DefaultEntryCount"
    by (rule ScaledCount_entry [OF assms(2)])
  have "convertBFIToCounts M F BFI = Inr (map (\<lambda>BB. ScaledCount (BFI EntryBB) (BFI BB)) (Blocks F))"
    by (rule convert_uninstrumented [where BFI = BFI and EntryBB = EntryBB, OF assms(1,2) None])
  then show ?thesis using assms(1) e by simp
next
  case (Some N)
  have "convertBFIToCounts M F BFI =
          Inr (DefaultEntryCount #
               map (counterSlot (sortDescending (map (\<lambda>BB. ScaledCount (BFI EntryBB) (BFI BB)) (Blocks F))))
                   [1..<unat N])"
    by (rule convert_instrumented [where BFI = BFI and EntryBB = EntryBB, OF assms(1,2) Some])
  then show ?thesis by simp
qed

text \<open>A single block of frequency 5 without a hint: the first count is 100.\<close>

theorem first_count_is_entry_count_witness:
  "Blocks (functionF [0]) = 0 # [] \<and> freqTable [(0, 5)] 0 \<noteq> 0
   \<and> tryExtractCounterCount (plainModule [functionF [0]]) (functionF [0]) = None
   \<and> 100 * unat (freqTable [(0, 5)] 0) < (2 :: nat) ^ 64
   \<and> (\<exists>Cs. convertBFIToCounts (plainModule [functionF [0]]) (functionF [0]) (freqTable [(0, 5)]) = Inr Cs
            \<and> Cs ! 0 = 100)"
proof -
  have b: "Blocks (functionF [0]) = 0 # []" by (simp add: functionF_def)
  have f: "freqTable [(0, 5)] 0 \<noteq> 0" by (simp add: freqTable_def)
  have h: "tryExtractCounterCount (plainModule [functionF [0]]) (functionF [0]) = None"
    by (simp add: tryExtractCounterCount_def plainModule_def functionF_def)
  have v: "100 * unat (freqTable [(0, 5)] 0) < (2 :: nat) ^ 64" by (simp add: freqTable_def)
  then have v': "tryExtractCounterCount (plainModule [functionF [0]]) (functionF [0]) = None
                 \<longrightarrow> 100 * unat (freqTable [(0, 5)] 0) < (2 :: nat) ^ 64" by simp
  show ?thesis
    using first_count_is_entry_count [where BFI = "freqTable [(0, 5)]" and EntryBB = 0, OF b f v'] b f h v
    by (simp add: DefaultEntryCount_def)
qed

text \<open>
  A single block of frequency \<open>2 ^ 60\<close> without a hint: the product wraps and the first
  count is 4.
\<close>

theorem entry_count_overflow_counterexample:
  "Blocks (functionF [0]) = 0 # [] \<and> freqTable [(0, 1152921504606846976)] 0 \<noteq> 0
   \<and> tryExtractCounterCount (plainModule [functionF [0]]) (functionF [0]) = None
   \<and> convertBFIToCounts (plainModule [functionF [0]]) (functionF [0])
         (freqTable [(0, 1152921504606846976)]) = Inr [4]
   \<and> ([4] :: u64 list) ! 0 \<noteq> DefaultEntryCount"
proof -
  let ?BFI = "freqTable [(0, 1152921504606846976)]"
  have b: "Blocks (functionF [0]) = 0 # []" by (simp add: functionF_def)
  have f: "?BFI 0 \<noteq> 0" by (simp add: freqTable_def)
  have h: "tryExtractCounterCount (plainModule [functionF [0]]) (functionF [0]) = None"
    by (simp add: tryExtractCounterCount_def plainModule_def functionF_def)
  have "convertBFIToCounts (plainModule [functionF [0]]) (functionF [0]) ?BFI =
          Inr (map (\<lambda>BB. ScaledCount (?BFI 0) (?BFI BB)) (Blocks (functionF [0])))"
    by (rule convert_uninstrumented [where BFI = ?BFI and EntryBB = 0, OF b f h])
  then have c: "convertBFIToCounts (plainModule [functionF [0]]) (functionF [0]) ?BFI = Inr [4]"
    by (simp add: functionF_def freqTable_def ScaledCount_def DefaultEntryCount_def)
  have d: "([4] :: u64 list) ! 0 \<noteq> DefaultEntryCount" by (simp add: DefaultEntryCount_def)
  show ?thesis using b f h c d by blast
qed

text \<open>
  Claim C10: for a function with a body and a nonzero entry frequency the conversion
  succeeds with a nonempty vector, so the result is never the \<open>Empty\<close> failure.
\<close>

theorem conversion_succeeds_nonempty:
  assumes "Blocks F = EntryBB # Rest" and "BFI EntryBB \<noteq> 0"
  shows "(\<exists>Cs. convertBFIToCounts M F BFI = Inr Cs \<and> Cs \<noteq> [])
         \<and> convertBFIToCounts M F BFI \<noteq> Inl Empty"
proof (cases "tryExtractCounterCount M F")
  case None
  have "convertBFIToCounts M F BFI = Inr (map (\<lambda>BB. ScaledCount (BFI EntryBB) (BFI BB)) (Blocks F))"
    by (rule convert_uninstrumented [where BFI = BFI and EntryBB = EntryBB, OF assms None])
  then show ?thesis using assms(1) by simp
next
  case (Some N)
  have "convertBFIToCounts M F BFI =
          Inr (DefaultEntryCount #
               map (counterSlot (sortDescending (map (\<lambda>BB. ScaledCount (BFI EntryBB) (BFI BB)) (Blocks F))))
                   [1..<unat N])"
    by (rule convert_instrumented [where BFI = BFI and EntryBB = EntryBB, OF assms Some])
  then show ?thesis by simp
qed

text \<open>A single block with hint 0: the vector is still nonempty.\<close>

theorem conversion_succeeds_nonempty_witness:
  "Blocks (functionF [0]) = 0 # [] \<and> freqTable [(0, 1)] 0 \<noteq> 0
   \<and> (\<exists>Cs. convertBFIToCounts (instrumentedModule 0 [functionF [0]]) (functionF [0])
               (freqTable [(0, 1)]) = Inr Cs \<and> Cs \<noteq> [])
   \<and> convertBFIToCounts (instrumentedModule 0 [functionF [0]]) (functionF [0]) (freqTable [(0, 1)])
       \<noteq> Inl Empty"
proof -
  have b: "Blocks (functionF [0]) = 0 # []" by (simp add: functionF_def)
  have f: "freqTable [(0, 1)] 0 \<noteq> 0" by (simp add: freqTable_def)
  show ?thesis
    using conversion_succeeds_nonempty [where BFI = "freqTable [(0, 1)]" and EntryBB = 0, OF b f] b f
    by blast
qed

section \<open>Function identity\<close>

text \<open>
  Claim C8: when the coverage lookup yields a structural hash, that hash is the function
  hash; when it yields nothing, the function hash is the name hash of the PGO name; and
  the name hash is returned with a successful lookup only if the structural hash equals it.
\<close>

theorem structural_hash_preferred:
  "(tryExtractCoverageHash ComputeHash M F = Some h \<longrightarrow> computeFunctionHash ComputeHash M F = h)
   \<and> (tryExtractCoverageHash ComputeHash M F = None \<longrightarrow>
        computeFunctionHash ComputeHash M F = ComputeHash (PGOFuncName F))
   \<and> (computeFunctionHash ComputeHash M F = ComputeHash (PGOFuncName F) \<longrightarrow>
        tryExtractCoverageHash ComputeHash M F = None
        \<or> tryExtractCoverageHash ComputeHash M F = Some (ComputeHash (PGOFuncName F)))"
  by (cases "tryExtractCoverageHash ComputeHash M F") (simp_all add: computeFunctionHash_def)

text \<open>A module with a coverage record for \<open>f\<close>, and one without.\<close>

theorem structural_hash_preferred_witness:
  "tryExtractCoverageHash lengthHash (coverageModule [functionF [0]]) (functionF [0]) = Some 48879
   \<and> computeFunctionHash lengthHash (coverageModule [functionF [0]]) (functionF [0]) = 48879
   \<and> lengthHash (PGOFuncName (functionF [0])) = 1
   \<and> tryExtractCoverageHash lengthHash (plainModule [functionF [0]]) (functionF [0]) = None
   \<and> computeFunctionHash lengthHash (plainModule [functionF [0]]) (functionF [0]) = 1"
proof -
  have n: "lengthHash (PGOFuncName (functionF [0])) = 1"
    by (simp add: lengthHash_def functionF_def)
  have x: "format_hex_no_prefix 1 16 = ''0000000000000001''"
    by code_simp
  have a: "tryExtractCoverageHash lengthHash (coverageModule [functionF [0]]) (functionF [0]) = Some 48879"
    by (simp add: tryExtractCoverageHash_def n x coverageModule_def)
  have b: "tryExtractCoverageHash lengthHash (plainModule [functionF [0]]) (functionF [0]) = None"
    by (simp add: tryExtractCoverageHash_def plainModule_def)
  show ?thesis
    using structural_hash_preferred [of lengthHash "coverageModule [functionF [0]]" "functionF [0]" 48879]
          structural_hash_preferred [of lengthHash "plainModule [functionF [0]]" "functionF [0]" 0]
          a b n
    by simp
qed

section \<open>The driver\<close>

text \<open>
  Claim C6: for a function with a body whose entry frequency is 0 the conversion fails
  with \<open>ZeroEntryFrequency\<close>; the driver leaves the writer and the processed tally
  unchanged, adds exactly 1 to the skipped tally, and goes on with the remaining
  functions.
\<close>

theorem zero_entry_frequency_skipped:
  assumes "Blocks F = EntryBB # Rest" and "FAM F EntryBB = 0"
  shows "convertBFIToCounts M F (FAM F) = Inl ZeroEntryFrequency
         \<and> processFunction ComputeHash addRecord FAM M st F
             = st\<lparr>FunctionsSkipped := FunctionsSkipped st + 1\<rparr>
         \<and> Writer (processFunction ComputeHash addRecord FAM M st F) = Writer st
         \<and> FunctionsProcessed (processFunction ComputeHash addRecord FAM M st F) = FunctionsProcessed st
         \<and> FunctionsSkipped (processFunction ComputeHash addRecord FAM M st F) = FunctionsSkipped st + 1
         \<and> runFunctions ComputeHash addRecord FAM M st (F # Fs)
             = runFunctions ComputeHash addRecord FAM M (st\<lparr>FunctionsSkipped := FunctionsSkipped st + 1\<rparr>) Fs"
proof -
  have c: "convertBFIToCounts M F (FAM F) = Inl ZeroEntryFrequency"
    by (rule convert_zero_entry [where BFI = "FAM F" and EntryBB = EntryBB, OF assms])
  have p: "processFunction ComputeHash addRecord FAM M st F
             = st\<lparr>FunctionsSkipped := FunctionsSkipped st + 1\<rparr>"
    using assms(1) by (simp add: processFunction_def isDeclaration_def c)
  show ?thesis using c p by simp
qed

text \<open>
  A module of two functions: the first has entry frequency 0 and is skipped, the second is
  exported.
\<close>

theorem zero_entry_frequency_skipped_witness:
  "Blocks (functionF [0]) = 0 # [] \<and> freqTable [(0, 0), (1, 4)] 0 = 0
   \<and> convertBFIToCounts (plainModule [functionF [0], functionF [1]]) (functionF [0])
         (freqTable [(0, 0), (1, 4)]) = Inl ZeroEntryFrequency
   \<and> processFunction lengthHash addRecordNoDuplicates (\<lambda>F. freqTable [(0, 0), (1, 4)])
         (plainModule [functionF [0], functionF [1]]) (initialState []) (functionF [0])
       = \<lparr>Writer = [], FunctionsProcessed = 0, FunctionsSkipped = 1\<rparr>
   \<and> runModule lengthHash addRecordNoDuplicates (\<lambda>F. freqTable [(0, 0), (1, 4)])
         (plainModule [functionF [0], functionF [1]]) []
       = \<lparr>Writer = [\<lparr>Name = ''f'', Hash = 1, Counts = [100]\<rparr>],
          FunctionsProcessed = 1, FunctionsSkipped = 1\<rparr>"
proof -
  let ?FAM = "\<lambda>F :: Function. freqTable [(0, 0), (1, 4)]"
  let ?M = "plainModule [functionF [0], functionF [1]]"
  have b: "Blocks (functionF [0]) = 0 # []" by (simp add: functionF_def)
  have f: "?FAM (functionF [0]) 0 = 0" by (simp add: freqTable_def)
  note z = zero_entry_frequency_skipped
             [where FAM = ?FAM and EntryBB = 0 and M = ?M and ComputeHash = lengthHash
                and addRecord = addRecordNoDuplicates and st = "initialState []"
                and Fs = "[functionF [1]]", OF b f]
  have r: "runFunctions lengthHash addRecordNoDuplicates ?FAM ?M
             ((initialState [])\<lparr>FunctionsSkipped := FunctionsSkipped (initialState []) + 1\<rparr>)
             [functionF [1]]
           = \<lparr>Writer = [\<lparr>Name = ''f'', Hash = 1, Counts = [100]\<rparr>],
              FunctionsProcessed = 1, FunctionsSkipped = 1\<rparr>"
    by code_simp
  show ?thesis
    using z b f r by (simp add: runModule_def plainModule_def initialState_def)
qed

text \<open>
  Claim C7 evaluated on the code: two functions of the same profile name and hash with one
  and two blocks. The writer rejects the second record, the callback increments the
  skipped tally, and the processed tally is incremented all the same: 2 processed,
  1 skipped, one record held.
\<close>

theorem rejected_record_counted_as_processed:
  "runModule lengthHash addRecordNoDuplicates (\<lambda>F. freqTable [(0, 1), (1, 1), (2, 1)])
     (plainModule [functionF [0], functionF [1, 2]]) []
   = \<lparr>Writer = [\<lparr>Name = ''f'', Hash = 1, Counts = [100]\<rparr>],
      FunctionsProcessed = 2, FunctionsSkipped = 1\<rparr>"
  by code_simp

end
